theory Spec2Isabelle
  imports Main "HOL-Library.Word"
begin

section \<open>Memory model\<close>

text \<open>
  The container of \<^verbatim>\<open>single-linked-list.h\<close> is a chain of heap nodes reached
  from a sentinel node \<^verbatim>\<open>head_\<close> that is embedded in the list object.  A node
  pointer (\<^verbatim>\<open>Node*\<close>) is therefore one of three things: \<^verbatim>\<open>nullptr\<close>, the address
  \<^verbatim>\<open>&head_\<close> of the sentinel of the list at hand, or the address of a node made by
  \<^verbatim>\<open>new\<close>.
\<close>

type_synonym addr = nat

datatype node_ptr = Null | Head | Ptr addr

text \<open>\<^verbatim>\<open>struct Node { Type value; Node* next_node = nullptr; }\<close>\<close>

record 'a Node =
  val :: 'a
  next_node :: node_ptr

text \<open>
  The free store is a list of cells indexed by address; a cell is \<open>None\<close> once its node
  has been deleted.  \<^verbatim>\<open>new\<close> appends a cell, so the address it returns is never one
  that is or was in use.  Allocation failure (\<^verbatim>\<open>std::bad_alloc\<close>) is not modelled.
\<close>

type_synonym 'a heap = "'a Node option list"

text \<open>
  Undefined behaviour of the C++ program is an error value: reading through
  \<^verbatim>\<open>nullptr\<close>, reading through a pointer to a deleted node, reading the value of the
  sentinel (which holds none), and deleting something that is not a live heap node.
\<close>

datatype error = NullDeref | DanglingDeref | SentinelValue | InvalidDelete

definition lookup :: "'a heap \<Rightarrow> addr \<Rightarrow> 'a Node option" where
  "lookup h a = (if a < length h then h ! a else None)"

definition new :: "'a heap \<Rightarrow> 'a Node \<Rightarrow> 'a heap \<times> addr" where
  "new h n = (h @ [Some n], length h)"

definition delete_node :: "'a heap \<Rightarrow> node_ptr \<Rightarrow> error + 'a heap" where
  "delete_node h p =
     (case p of
        Null \<Rightarrow> Inr h
      | Head \<Rightarrow> Inl InvalidDelete
      | Ptr a \<Rightarrow> (case lookup h a of
                   None \<Rightarrow> Inl InvalidDelete
                 | Some n \<Rightarrow> Inr (h[a := None])))"

text \<open>
  The list object: the sentinel \<^verbatim>\<open>head_\<close>, of which only the link
  \<^verbatim>\<open>head_.next_node\<close> is ever used, and the counter \<^verbatim>\<open>size_\<close> (field \<open>list_size\<close>), a
  \<^verbatim>\<open>size_t\<close> (64 bits wide, arithmetic modulo \<open>2 ^ 64\<close>).  Neither depends on the
  element type, which is that of the heap the list lives in.
\<close>

record SingleLinkedList =
  head_next_node :: node_ptr
  list_size :: "64 word"

text \<open>\<^verbatim>\<open>p->next_node\<close>, read and written, and \<^verbatim>\<open>p->value\<close>, read.\<close>

definition get_next_node ::
  "'a heap \<Rightarrow> SingleLinkedList \<Rightarrow> node_ptr \<Rightarrow> error + node_ptr" where
  "get_next_node h l p =
     (case p of
        Null \<Rightarrow> Inl NullDeref
      | Head \<Rightarrow> Inr (head_next_node l)
      | Ptr a \<Rightarrow> (case lookup h a of
                   None \<Rightarrow> Inl DanglingDeref
                 | Some n \<Rightarrow> Inr (next_node n)))"

definition set_next_node ::
  "'a heap \<Rightarrow> SingleLinkedList \<Rightarrow> node_ptr \<Rightarrow> node_ptr \<Rightarrow>
     error + ('a heap \<times> SingleLinkedList)" where
  "set_next_node h l p q =
     (case p of
        Null \<Rightarrow> Inl NullDeref
      | Head \<Rightarrow> Inr (h, l\<lparr>head_next_node := q\<rparr>)
      | Ptr a \<Rightarrow> (case lookup h a of
                   None \<Rightarrow> Inl DanglingDeref
                 | Some n \<Rightarrow> Inr (h[a := Some (n\<lparr>next_node := q\<rparr>)], l)))"

definition get_value :: "'a heap \<Rightarrow> node_ptr \<Rightarrow> error + 'a" where
  "get_value h p =
     (case p of
        Null \<Rightarrow> Inl NullDeref
      | Head \<Rightarrow> Inl SentinelValue
      | Ptr a \<Rightarrow> (case lookup h a of
                   None \<Rightarrow> Inl DanglingDeref
                 | Some n \<Rightarrow> Inr (val n)))"

section \<open>Iterators\<close>

text \<open>\<^verbatim>\<open>BasicIterator\<close> has the single member \<^verbatim>\<open>node_\<close> (field \<open>it_node\<close>).\<close>

record BasicIterator =
  it_node :: node_ptr

definition list_begin :: "SingleLinkedList \<Rightarrow> BasicIterator" where
  "list_begin l = \<lparr>it_node = head_next_node l\<rparr>"

definition list_end :: "SingleLinkedList \<Rightarrow> BasicIterator" where
  "list_end l = \<lparr>it_node = Null\<rparr>"

definition before_begin :: "SingleLinkedList \<Rightarrow> BasicIterator" where
  "before_begin l = \<lparr>it_node = Head\<rparr>"

text \<open>
  \<^verbatim>\<open>operator++()\<close>: the iterator after the call (the reference returned is to that
  same iterator).
\<close>

definition pre_increment ::
  "'a heap \<Rightarrow> SingleLinkedList \<Rightarrow> BasicIterator \<Rightarrow> error + BasicIterator" where
  "pre_increment h l it =
     (if it_node it \<noteq> Null
      then (case get_next_node h l (it_node it) of
              Inl e \<Rightarrow> Inl e
            | Inr q \<Rightarrow> Inr (it\<lparr>it_node := q\<rparr>))
      else Inr it)"

text \<open>\<^verbatim>\<open>operator++(int)\<close>: the value returned, and the iterator after the call.\<close>

definition post_increment ::
  "'a heap \<Rightarrow> SingleLinkedList \<Rightarrow> BasicIterator \<Rightarrow>
     error + (BasicIterator \<times> BasicIterator)" where
  "post_increment h l it =
     (let old_value = it
      in case pre_increment h l it of
           Inl e \<Rightarrow> Inl e
         | Inr it' \<Rightarrow> Inr (old_value, it'))"

text \<open>\<^verbatim>\<open>operator*\<close>\<close>

definition deref :: "'a heap \<Rightarrow> BasicIterator \<Rightarrow> error + 'a" where
  "deref h it = get_value h (it_node it)"

section \<open>Member functions\<close>

definition GetSize :: "SingleLinkedList \<Rightarrow> 64 word" where
  "GetSize l = list_size l"

definition IsEmpty :: "SingleLinkedList \<Rightarrow> bool" where
  "IsEmpty l = (if list_size l = 0 then True else False)"

definition PushFront ::
  "'a heap \<Rightarrow> SingleLinkedList \<Rightarrow> 'a \<Rightarrow> 'a heap \<times> SingleLinkedList" where
  "PushFront h l v =
     (case new h \<lparr>val = v, next_node = head_next_node l\<rparr> of
        (h', a) \<Rightarrow> (h', l\<lparr>head_next_node := Ptr a, list_size := list_size l + 1\<rparr>))"

definition PopFront ::
  "'a heap \<Rightarrow> SingleLinkedList \<Rightarrow> error + ('a heap \<times> SingleLinkedList)" where
  "PopFront h l =
     (if head_next_node l \<noteq> Null
      then (let node_for_del = head_next_node l
            in case get_next_node h l (head_next_node l) of
                 Inl e \<Rightarrow> Inl e
               | Inr node_after_del \<Rightarrow>
                   (let l' = (if node_after_del \<noteq> Null
                              then l\<lparr>head_next_node := node_after_del\<rparr>
                              else l\<lparr>head_next_node := Null\<rparr>)
                    in case delete_node h node_for_del of
                         Inl e \<Rightarrow> Inl e
                       | Inr h' \<Rightarrow> Inr (h', l')))
      else Inr (h, l))"

definition InsertAfter ::
  "'a heap \<Rightarrow> SingleLinkedList \<Rightarrow> BasicIterator \<Rightarrow> 'a \<Rightarrow>
     error + ('a heap \<times> SingleLinkedList \<times> BasicIterator)" where
  "InsertAfter h l pos v =
     (case get_next_node h l (it_node pos) of
        Inl e \<Rightarrow> Inl e
      | Inr nx \<Rightarrow>
          (case new h \<lparr>val = v, next_node = nx\<rparr> of
             (h1, new_node) \<Rightarrow>
               (case set_next_node h1 l (it_node pos) (Ptr new_node) of
                  Inl e \<Rightarrow> Inl e
                | Inr (h2, l2) \<Rightarrow>
                    Inr (h2, l2\<lparr>list_size := list_size l2 + 1\<rparr>, \<lparr>it_node = Ptr new_node\<rparr>))))"

definition EraseAfter ::
  "'a heap \<Rightarrow> SingleLinkedList \<Rightarrow> BasicIterator \<Rightarrow>
     error + ('a heap \<times> SingleLinkedList \<times> BasicIterator)" where
  "EraseAfter h l pos =
     (case get_next_node h l (it_node pos) of
        Inl e \<Rightarrow> Inl e
      | Inr node_for_del \<Rightarrow>
          (case get_next_node h l node_for_del of
             Inl e \<Rightarrow> Inl e
           | Inr nx \<Rightarrow>
               (case set_next_node h l (it_node pos) nx of
                  Inl e \<Rightarrow> Inl e
                | Inr (h1, l1) \<Rightarrow>
                    (case delete_node h1 node_for_del of
                       Inl e \<Rightarrow> Inl e
                     | Inr h2 \<Rightarrow>
                         (case get_next_node h2 l1 (it_node pos) of
                            Inl e \<Rightarrow> Inl e
                          | Inr r \<Rightarrow> Inr (h2, l1, \<lparr>it_node = r\<rparr>))))))"

text \<open>
  \<^verbatim>\<open>Clear\<close>: the \<^verbatim>\<open>while\<close> loop follows the links for as long as they are not
  \<^verbatim>\<open>nullptr\<close>, so on a cyclic chain it does not return; that is the value \<open>None\<close>.
\<close>

partial_function (option) Clear_loop ::
  "'a heap \<Rightarrow> SingleLinkedList \<Rightarrow> node_ptr \<Rightarrow>
     (error + ('a heap \<times> SingleLinkedList)) option" where
  "Clear_loop h l first_node =
     (if first_node \<noteq> Null
      then (let current_node = first_node
            in case get_next_node h l first_node of
                 Inl e \<Rightarrow> Some (Inl e)
               | Inr nx \<Rightarrow>
                   (case delete_node h current_node of
                      Inl e \<Rightarrow> Some (Inl e)
                    | Inr h' \<Rightarrow> Clear_loop h' (l\<lparr>list_size := list_size l - 1\<rparr>) nx))
      else Some (Inr (h, l)))"

declare Clear_loop.simps [code]

definition Clear ::
  "'a heap \<Rightarrow> SingleLinkedList \<Rightarrow> (error + ('a heap \<times> SingleLinkedList)) option" where
  "Clear h l =
     (case (if head_next_node l \<noteq> Null
            then Clear_loop h l (head_next_node l)
            else Some (Inr (h, l))) of
        None \<Rightarrow> None
      | Some (Inl e) \<Rightarrow> Some (Inl e)
      | Some (Inr (h', l')) \<Rightarrow> Some (Inr (h', l'\<lparr>head_next_node := Null, list_size := 0\<rparr>)))"

text \<open>
  The object as its member initialisers leave it, before a constructor body runs:
  \<^verbatim>\<open>head_.next_node = nullptr\<close>, \<^verbatim>\<open>size_ = 0\<close>.
\<close>

definition default_members :: "SingleLinkedList" where
  "default_members = \<lparr>head_next_node = Null, list_size = 0\<rparr>"

text \<open>
  \<^verbatim>\<open>SingleLinkedList(std::initializer_list<Type> values)\<close>: \<^verbatim>\<open>Clear()\<close>, then
  \<^verbatim>\<open>PushFront(*it)\<close> for \<^verbatim>\<open>it\<close> from \<^verbatim>\<open>rbegin(values)\<close> to \<^verbatim>\<open>rend(values)\<close>.
\<close>

definition SingleLinkedList_init ::
  "'a heap \<Rightarrow> 'a list \<Rightarrow> (error + ('a heap \<times> SingleLinkedList)) option" where
  "SingleLinkedList_init h values =
     (case Clear h default_members of
        None \<Rightarrow> None
      | Some (Inl e) \<Rightarrow> Some (Inl e)
      | Some (Inr (h0, l0)) \<Rightarrow>
          Some (Inr (fold (\<lambda>v (h', l'). PushFront h' l' v) (rev values) (h0, l0))))"

section \<open>Traversal and the comparison operators\<close>

text \<open>\<^verbatim>\<open>BasicIterator::operator==\<close> and \<^verbatim>\<open>operator!=\<close>\<close>

definition iter_eq :: "BasicIterator \<Rightarrow> BasicIterator \<Rightarrow> bool" where
  "iter_eq a b = (it_node a = it_node b)"

definition iter_ne :: "BasicIterator \<Rightarrow> BasicIterator \<Rightarrow> bool" where
  "iter_ne a b = (\<not> iter_eq a b)"

text \<open>
  What a client reads from a range of the list:
  \<^verbatim>\<open>for (; first != end_it; ++first) out.push_back(*first);\<close>
\<close>

partial_function (option) iterate ::
  "'a heap \<Rightarrow> SingleLinkedList \<Rightarrow> BasicIterator \<Rightarrow> BasicIterator \<Rightarrow> 'a list \<Rightarrow>
     (error + 'a list) option" where
  "iterate h l first end_it out =
     (if iter_ne first end_it
      then (case deref h first of
              Inl e \<Rightarrow> Some (Inl e)
            | Inr v \<Rightarrow>
                (case pre_increment h l first of
                   Inl e \<Rightarrow> Some (Inl e)
                 | Inr first' \<Rightarrow> iterate h l first' end_it (out @ [v])))
      else Some (Inr out))"

declare iterate.simps [code]

definition elements :: "'a heap \<Rightarrow> SingleLinkedList \<Rightarrow> (error + 'a list) option" where
  "elements h l = iterate h l (list_begin l) (list_end l) []"

text \<open>
  The algorithms of the standard library that the operators call, as the C++ standard
  defines them.  \<^verbatim>\<open>std::equal(first1, last1, first2)\<close>, the overload with three
  iterators, takes no end for the second range:
  \<^verbatim>\<open>for (; first1 != last1; ++first1, ++first2) if (!(*first1 == *first2)) return false;
  return true;\<close>
\<close>

partial_function (option) std_equal ::
  "'a heap \<Rightarrow> SingleLinkedList \<Rightarrow> SingleLinkedList \<Rightarrow>
     BasicIterator \<Rightarrow> BasicIterator \<Rightarrow> BasicIterator \<Rightarrow> (error + bool) option" where
  "std_equal h l1 l2 first1 last1 first2 =
     (if iter_ne first1 last1
      then (case deref h first1 of
              Inl e \<Rightarrow> Some (Inl e)
            | Inr a \<Rightarrow>
                (case deref h first2 of
                   Inl e \<Rightarrow> Some (Inl e)
                 | Inr b \<Rightarrow>
                     if \<not> (a = b) then Some (Inr False)
                     else (case pre_increment h l1 first1 of
                             Inl e \<Rightarrow> Some (Inl e)
                           | Inr first1' \<Rightarrow>
                               (case pre_increment h l2 first2 of
                                  Inl e \<Rightarrow> Some (Inl e)
                                | Inr first2' \<Rightarrow>
                                    std_equal h l1 l2 first1' last1 first2'))))
      else Some (Inr True))"

declare std_equal.simps [code]

text \<open>
  \<^verbatim>\<open>std::lexicographical_compare(first1, last1, first2, last2)\<close>:
  \<^verbatim>\<open>for (; first1 != last1 && first2 != last2; ++first1, ++first2) {
    if (*first1 < *first2) return true;
    if (*first2 < *first1) return false; }
  return first1 == last1 && first2 != last2;\<close>
\<close>

partial_function (option) std_lexicographical_compare ::
  "('a::linorder) heap \<Rightarrow> SingleLinkedList \<Rightarrow> SingleLinkedList \<Rightarrow>
     BasicIterator \<Rightarrow> BasicIterator \<Rightarrow> BasicIterator \<Rightarrow> BasicIterator \<Rightarrow>
     (error + bool) option" where
  "std_lexicographical_compare h l1 l2 first1 last1 first2 last2 =
     (if iter_ne first1 last1 \<and> iter_ne first2 last2
      then (case deref h first1 of
              Inl e \<Rightarrow> Some (Inl e)
            | Inr a \<Rightarrow>
                (case deref h first2 of
                   Inl e \<Rightarrow> Some (Inl e)
                 | Inr b \<Rightarrow>
                     if a < b then Some (Inr True)
                     else if b < a then Some (Inr False)
                     else (case pre_increment h l1 first1 of
                             Inl e \<Rightarrow> Some (Inl e)
                           | Inr first1' \<Rightarrow>
                               (case pre_increment h l2 first2 of
                                  Inl e \<Rightarrow> Some (Inl e)
                                | Inr first2' \<Rightarrow>
                                    std_lexicographical_compare h l1 l2
                                      first1' last1 first2' last2))))
      else Some (Inr (iter_eq first1 last1 \<and> iter_ne first2 last2)))"

declare std_lexicographical_compare.simps [code]

text \<open>The negation \<^verbatim>\<open>!\<close> of a comparison that may fail or not return.\<close>

definition not_result :: "(error + bool) option \<Rightarrow> (error + bool) option" where
  "not_result r =
     (case r of
        None \<Rightarrow> None
      | Some (Inl e) \<Rightarrow> Some (Inl e)
      | Some (Inr b) \<Rightarrow> Some (Inr (\<not> b)))"

definition operator_eq ::
  "'a heap \<Rightarrow> SingleLinkedList \<Rightarrow> SingleLinkedList \<Rightarrow> (error + bool) option" where
  "operator_eq h lhs rhs =
     std_equal h lhs rhs (list_begin lhs) (list_end lhs) (list_begin rhs)"

definition operator_ne ::
  "'a heap \<Rightarrow> SingleLinkedList \<Rightarrow> SingleLinkedList \<Rightarrow> (error + bool) option" where
  "operator_ne h lhs rhs = not_result (operator_eq h lhs rhs)"

definition operator_lt ::
  "('a::linorder) heap \<Rightarrow> SingleLinkedList \<Rightarrow> SingleLinkedList \<Rightarrow>
     (error + bool) option" where
  "operator_lt h lhs rhs =
     std_lexicographical_compare h lhs rhs
       (list_begin lhs) (list_end lhs) (list_begin rhs) (list_end rhs)"

definition operator_le ::
  "('a::linorder) heap \<Rightarrow> SingleLinkedList \<Rightarrow> SingleLinkedList \<Rightarrow>
     (error + bool) option" where
  "operator_le h lhs rhs = not_result (operator_lt h lhs rhs)"

definition operator_gt ::
  "('a::linorder) heap \<Rightarrow> SingleLinkedList \<Rightarrow> SingleLinkedList \<Rightarrow>
     (error + bool) option" where
  "operator_gt h lhs rhs = not_result (operator_lt h lhs rhs)"

definition operator_ge ::
  "('a::linorder) heap \<Rightarrow> SingleLinkedList \<Rightarrow> SingleLinkedList \<Rightarrow>
     (error + bool) option" where
  "operator_ge h lhs rhs = not_result (operator_lt h lhs rhs)"

section \<open>Well-formed chains\<close>

text \<open>
  \<open>chain h p ns\<close>: following the links from \<open>p\<close> in the heap \<open>h\<close> visits exactly the
  live nodes whose addresses and values are listed in \<open>ns\<close>, in that order, and then
  reaches \<^verbatim>\<open>nullptr\<close>.
\<close>

fun chain :: "'a heap \<Rightarrow> node_ptr \<Rightarrow> (addr \<times> 'a) list \<Rightarrow> bool" where
  "chain h p [] = (p = Null)"
| "chain h p ((a, v) # ns) =
     (p = Ptr a \<and>
      (case lookup h a of
         None \<Rightarrow> False
       | Some n \<Rightarrow> val n = v \<and> chain h (next_node n) ns))"

text \<open>The heap after the nodes at the given addresses have been deleted.\<close>

definition release :: "addr list \<Rightarrow> 'a heap \<Rightarrow> 'a heap" where
  "release as h = fold (\<lambda>a h'. h'[a := None]) as h"

text \<open>
  The iterator values a program can hold without having destroyed what they refer to:
  \<^verbatim>\<open>end()\<close>, \<^verbatim>\<open>before_begin()\<close>, or a node that has not been deleted.
\<close>

definition valid_iterator :: "'a heap \<Rightarrow> BasicIterator \<Rightarrow> bool" where
  "valid_iterator h it =
     (case it_node it of
        Null \<Rightarrow> True
      | Head \<Rightarrow> True
      | Ptr a \<Rightarrow> (case lookup h a of None \<Rightarrow> False | Some n \<Rightarrow> True))"

text \<open>
  The iterators of a list whose chain is \<open>ns\<close>: \<^verbatim>\<open>end()\<close>, \<^verbatim>\<open>before_begin()\<close>, or
  an iterator to one of its nodes.
\<close>

definition list_iterator :: "(addr \<times> 'a) list \<Rightarrow> BasicIterator \<Rightarrow> bool" where
  "list_iterator ns it =
     (case it_node it of
        Null \<Rightarrow> True
      | Head \<Rightarrow> True
      | Ptr a \<Rightarrow> a \<in> set (map fst ns))"

section \<open>Facts about the heap and about chains\<close>

lemmas eval_defs = lookup_def new_def delete_node_def get_next_node_def set_next_node_def
  get_value_def list_begin_def list_end_def before_begin_def pre_increment_def
  post_increment_def deref_def GetSize_def IsEmpty_def PushFront_def PopFront_def
  InsertAfter_def EraseAfter_def Clear_def default_members_def SingleLinkedList_init_def
  iter_eq_def iter_ne_def elements_def not_result_def operator_eq_def operator_ne_def
  operator_lt_def operator_le_def operator_gt_def operator_ge_def

lemma lookup_append: "lookup (h @ [x]) a = (if a = length h then x else lookup h a)"
  by (auto simp: lookup_def nth_append)

lemma lookup_update: "lookup (h[a := x]) b = (if b = a \<and> a < length h then x else lookup h b)"
  by (auto simp: lookup_def)

lemma lookup_Some_less: "lookup h a = Some n \<Longrightarrow> a < length h"
  by (auto simp: lookup_def split: if_splits)

lemma chain_Null: "chain h Null ns = (ns = [])"
  by (cases ns) auto

lemma chain_Head: "\<not> chain h Head ns"
  by (cases ns) auto

lemma chain_Ptr:
  "chain h (Ptr a) ns =
     (\<exists>n ms. lookup h a = Some n \<and> ns = (a, val n) # ms \<and> chain h (next_node n) ms)"
  by (cases ns) (auto split: option.splits)

lemma chain_append_cell: "chain h p ns \<Longrightarrow> chain (h @ [x]) p ns"
proof (induction ns arbitrary: p)
  case Nil
  then show ?case by simp
next
  case (Cons m ns)
  obtain a v where m: "m = (a, v)" by (cases m)
  from Cons.prems m obtain n where n: "lookup h a = Some n" "p = Ptr a" "val n = v"
    "chain h (next_node n) ns"
    by (auto split: option.splits)
  from n(1) have "a \<noteq> length h" by (auto dest: lookup_Some_less)
  with n Cons.IH [OF n(4)] m show ?case by (simp add: lookup_append)
qed

lemma chain_update_other:
  "a \<notin> fst ` set ns \<Longrightarrow> chain (h[a := x]) p ns = chain h p ns"
proof (induction ns arbitrary: p)
  case Nil
  then show ?case by simp
next
  case (Cons m ns)
  obtain b v where m: "m = (b, v)" by (cases m)
  with Cons.prems have "b \<noteq> a" "a \<notin> fst ` set ns" by auto
  with Cons.IH m show ?case by (simp add: lookup_update split: option.splits)
qed

lemma chain_functional: "chain h p ns \<Longrightarrow> chain h p ms \<Longrightarrow> ns = ms"
proof (induction ns arbitrary: p ms)
  case Nil
  then show ?case by (simp add: chain_Null)
next
  case (Cons m ns)
  obtain a v where m: "m = (a, v)" by (cases m)
  from Cons.prems(1) m obtain n where n: "lookup h a = Some n" "p = Ptr a" "val n = v"
    "chain h (next_node n) ns"
    by (auto split: option.splits)
  from Cons.prems(2) n obtain ms' where ms: "ms = (a, v) # ms'" "chain h (next_node n) ms'"
    by (auto simp: chain_Ptr)
  from Cons.IH [OF n(4) ms(2)] ms m show ?case by simp
qed

lemma chain_suffix:
  "chain h p ns \<Longrightarrow> a \<in> fst ` set ns \<Longrightarrow>
     \<exists>pre suf. ns = pre @ suf \<and> chain h (Ptr a) suf"
proof (induction ns arbitrary: p)
  case Nil
  then show ?case by simp
next
  case (Cons m ns)
  obtain b v where m: "m = (b, v)" by (cases m)
  from Cons.prems(1) m obtain n where n: "lookup h b = Some n" "p = Ptr b" "val n = v"
    "chain h (next_node n) ns"
    by (auto split: option.splits)
  show ?case
  proof (cases "a = b")
    case True
    with Cons.prems(1) n(2) have "m # ns = [] @ (m # ns) \<and> chain h (Ptr a) (m # ns)" by simp
    then show ?thesis by blast
  next
    case False
    with Cons.prems(2) m have "a \<in> fst ` set ns" by auto
    from Cons.IH [OF n(4) this] obtain pre suf where "ns = pre @ suf" "chain h (Ptr a) suf"
      by blast
    then have "m # ns = (m # pre) @ suf \<and> chain h (Ptr a) suf" by simp
    then show ?thesis by blast
  qed
qed

lemma chain_acyclic:
  assumes "lookup h a = Some n" and "chain h (next_node n) ns"
  shows "a \<notin> fst ` set ns"
proof
  assume "a \<in> fst ` set ns"
  from chain_suffix [OF assms(2) this] obtain pre suf where
    ps: "ns = pre @ suf" "chain h (Ptr a) suf" by blast
  from ps(2) assms(1) obtain ms where ms: "suf = (a, val n) # ms" "chain h (next_node n) ms"
    by (auto simp: chain_Ptr)
  from chain_functional [OF assms(2) ms(2)] have "ns = ms" .
  with ps(1) ms(1) have "length ns = length pre + Suc (length ns)" by simp
  then show False by simp
qed

lemma chain_distinct: "chain h p ns \<Longrightarrow> distinct (map fst ns)"
proof (induction ns arbitrary: p)
  case Nil
  then show ?case by simp
next
  case (Cons m ns)
  obtain a v where m: "m = (a, v)" by (cases m)
  from Cons.prems m obtain n where n: "lookup h a = Some n" "p = Ptr a" "val n = v"
    "chain h (next_node n) ns"
    by (auto split: option.splits)
  from chain_acyclic [OF n(1) n(4)] Cons.IH [OF n(4)] m show ?case by simp
qed

lemma iterate_chain:
  "chain h p ns \<Longrightarrow>
     iterate h l \<lparr>it_node = p\<rparr> \<lparr>it_node = Null\<rparr> out = Some (Inr (out @ map snd ns))"
proof (induction ns arbitrary: p out)
  case Nil
  then show ?case by (simp add: iterate.simps iter_ne_def iter_eq_def)
next
  case (Cons m ns)
  obtain a v where m: "m = (a, v)" by (cases m)
  from Cons.prems m obtain n where n: "lookup h a = Some n" "p = Ptr a" "val n = v"
    "chain h (next_node n) ns"
    by (auto split: option.splits)
  have "iterate h l \<lparr>it_node = p\<rparr> \<lparr>it_node = Null\<rparr> out =
          iterate h l \<lparr>it_node = next_node n\<rparr> \<lparr>it_node = Null\<rparr> (out @ [v])"
    using n(1-3)
    by (subst iterate.simps)
      (simp add: iter_ne_def iter_eq_def deref_def get_value_def pre_increment_def
        get_next_node_def)
  with Cons.IH [OF n(4)] m show ?case by simp
qed

lemma elements_chain:
  "chain h (head_next_node l) ns \<Longrightarrow> elements h l = Some (Inr (map snd ns))"
  by (simp add: elements_def list_begin_def list_end_def iterate_chain)

lemma chain_next_in_chain:
  assumes "chain h p ns" and "a \<in> fst ` set ns"
  shows "\<exists>n. lookup h a = Some n \<and>
           (next_node n = Null \<or> (\<exists>b \<in> fst ` set ns. next_node n = Ptr b))"
proof -
  from chain_suffix [OF assms] obtain pre suf where
    ps: "ns = pre @ suf" "chain h (Ptr a) suf" by blast
  from ps(2) obtain n ms where n: "lookup h a = Some n" "suf = (a, val n) # ms"
    "chain h (next_node n) ms"
    by (auto simp: chain_Ptr)
  show ?thesis
  proof (cases ms)
    case Nil
    with n(3) have "next_node n = Null" by simp
    with n(1) show ?thesis by simp
  next
    case (Cons m ms')
    obtain b w where m: "m = (b, w)" by (cases m)
    with Cons n(3) have "next_node n = Ptr b" by simp
    moreover from ps(1) n(2) Cons m have "b \<in> fst ` set ns" by force
    ultimately show ?thesis using n(1) by blast
  qed
qed

lemma chain_head_in_chain:
  "chain h p ns \<Longrightarrow> p = Null \<or> (\<exists>b \<in> fst ` set ns. p = Ptr b)"
  by (cases ns) auto

section \<open>The operations on well-formed lists\<close>

lemma PushFront_chain:
  assumes "chain h (head_next_node l) ns"
  shows "chain (fst (PushFront h l v)) (head_next_node (snd (PushFront h l v)))
           ((length h, v) # ns)"
  using chain_append_cell [OF assms]
  by (simp add: PushFront_def new_def lookup_append)

lemma PushFront_size: "list_size (snd (PushFront h l v)) = list_size l + 1"
  by (simp add: PushFront_def new_def)

lemma fold_PushFront_chain:
  "chain h (head_next_node l) ns \<Longrightarrow>
     \<exists>ms. chain (fst (fold (\<lambda>v (h', l'). PushFront h' l' v) vs (h, l)))
            (head_next_node (snd (fold (\<lambda>v (h', l'). PushFront h' l' v) vs (h, l)))) ms \<and>
          map snd ms = rev vs @ map snd ns"
proof (induction vs arbitrary: h l ns)
  case Nil
  then show ?case by auto
next
  case (Cons v vs)
  obtain h1 l1 where p: "PushFront h l v = (h1, l1)" by (cases "PushFront h l v")
  from PushFront_chain [OF Cons.prems, of v] p
  have "chain h1 (head_next_node l1) ((length h, v) # ns)" by simp
  from Cons.IH [OF this] p show ?case by simp
qed

lemma fold_PushFront_size:
  "list_size (snd (fold (\<lambda>v (h', l'). PushFront h' l' v) vs (h, l))) =
     list_size l + of_nat (length vs)"
proof (induction vs arbitrary: h l)
  case Nil
  then show ?case by simp
next
  case (Cons v vs)
  obtain h1 l1 where p: "PushFront h l v = (h1, l1)" by (cases "PushFront h l v")
  with PushFront_size [of h l v] have "list_size l1 = list_size l + 1" by simp
  with Cons.IH [of h1 l1] p show ?case by simp
qed

lemma Clear_default: "Clear h default_members = Some (Inr (h, default_members))"
  by (simp add: Clear_def default_members_def)

lemma Clear_loop_chain:
  "chain h p ns \<Longrightarrow>
     Clear_loop h l p =
       Some (Inr (release (map fst ns) h, l\<lparr>list_size := list_size l - of_nat (length ns)\<rparr>))"
proof (induction ns arbitrary: h l p)
  case Nil
  then show ?case by (simp add: Clear_loop.simps release_def)
next
  case (Cons m ns)
  obtain a v where m: "m = (a, v)" by (cases m)
  from Cons.prems m obtain n where n: "lookup h a = Some n" "p = Ptr a" "val n = v"
    "chain h (next_node n) ns"
    by (auto split: option.splits)
  from chain_acyclic [OF n(1) n(4)] n(4)
  have c: "chain (h[a := None]) (next_node n) ns" by (simp add: chain_update_other)
  have "Clear_loop h l p =
          Clear_loop (h[a := None]) (l\<lparr>list_size := list_size l - 1\<rparr>) (next_node n)"
    using n(1,2)
    by (subst Clear_loop.simps) (simp add: get_next_node_def delete_node_def)
  with Cons.IH [OF c, of "l\<lparr>list_size := list_size l - 1\<rparr>"] m
  show ?case by (simp add: release_def algebra_simps)
qed

lemma lexicographical_compare_chain:
  "chain h p ns \<Longrightarrow> chain h q ms \<Longrightarrow>
     std_lexicographical_compare h l1 l2
       \<lparr>it_node = p\<rparr> \<lparr>it_node = Null\<rparr> \<lparr>it_node = q\<rparr> \<lparr>it_node = Null\<rparr> =
     Some (Inr ((map snd ns, map snd ms) \<in> lexord {(x, y). x < y}))"
proof (induction ns arbitrary: p q ms)
  case Nil
  then have "p = Null" by simp
  with Nil show ?case
    by (cases ms) (auto simp: std_lexicographical_compare.simps iter_ne_def iter_eq_def)
next
  case (Cons m ns)
  obtain a v where m: "m = (a, v)" by (cases m)
  from Cons.prems(1) m obtain n where n: "lookup h a = Some n" "p = Ptr a" "val n = v"
    "chain h (next_node n) ns"
    by (auto split: option.splits)
  show ?case
  proof (cases ms)
    case Nil
    with Cons.prems(2) have "q = Null" by simp
    with Nil n(2) show ?thesis
      by (simp add: std_lexicographical_compare.simps iter_ne_def iter_eq_def)
  next
    case (Cons m' ms')
    obtain b w where m': "m' = (b, w)" by (cases m')
    from Cons.prems(2) Cons m' obtain n' where n': "lookup h b = Some n'" "q = Ptr b"
      "val n' = w" "chain h (next_node n') ms'"
      by (auto split: option.splits)
    show ?thesis
    proof (cases "v < w \<or> w < v")
      case True
      then show ?thesis
        using n(1-3) n'(1-3) m m' Cons
        by (subst std_lexicographical_compare.simps)
          (auto simp: iter_ne_def iter_eq_def deref_def get_value_def)
    next
      case False
      then have vw: "v = w" by auto
      have "std_lexicographical_compare h l1 l2
              \<lparr>it_node = p\<rparr> \<lparr>it_node = Null\<rparr> \<lparr>it_node = q\<rparr> \<lparr>it_node = Null\<rparr> =
            std_lexicographical_compare h l1 l2
              \<lparr>it_node = next_node n\<rparr> \<lparr>it_node = Null\<rparr>
              \<lparr>it_node = next_node n'\<rparr> \<lparr>it_node = Null\<rparr>"
        using n(1-3) n'(1-3) vw
        by (subst std_lexicographical_compare.simps)
          (simp add: iter_ne_def iter_eq_def deref_def get_value_def pre_increment_def
            get_next_node_def)
      with Cons.IH [OF n(4) n'(4)] m m' Cons vw show ?thesis by simp
    qed
  qed
qed

text \<open>On a node that links to itself the comparison of the list with itself does not return.\<close>

lemma lexicographical_compare_self_loop:
  "std_lexicographical_compare [Some \<lparr>val = 1::int, next_node = Ptr 0\<rparr>] l1 l2
     \<lparr>it_node = Ptr 0\<rparr> \<lparr>it_node = Null\<rparr> \<lparr>it_node = Ptr 0\<rparr> \<lparr>it_node = Null\<rparr> = None"
proof -
  have no: "\<not> (h = [Some \<lparr>val = 1::int, next_node = Ptr 0\<rparr>] \<and> f1 = \<lparr>it_node = Ptr 0\<rparr> \<and>
           e1 = \<lparr>it_node = Null\<rparr> \<and> f2 = \<lparr>it_node = Ptr 0\<rparr> \<and> e2 = \<lparr>it_node = Null\<rparr>)"
    if "std_lexicographical_compare h l1 l2 f1 e1 f2 e2 = Some y" for h l1 l2 f1 e1 f2 e2 y
  proof (rule std_lexicographical_compare.raw_induct
      [where P = "\<lambda>h l1 l2 f1 e1 f2 e2 y.
         \<not> (h = [Some \<lparr>val = 1::int, next_node = Ptr 0\<rparr>] \<and> f1 = \<lparr>it_node = Ptr 0\<rparr> \<and>
           e1 = \<lparr>it_node = Null\<rparr> \<and> f2 = \<lparr>it_node = Ptr 0\<rparr> \<and> e2 = \<lparr>it_node = Null\<rparr>)",
       OF _ that], goal_cases)
    case (1 cmp h l1 l2 f1 e1 f2 e2 y)
    show ?case
    proof
      assume a: "h = [Some \<lparr>val = 1::int, next_node = Ptr 0\<rparr>] \<and> f1 = \<lparr>it_node = Ptr 0\<rparr> \<and>
           e1 = \<lparr>it_node = Null\<rparr> \<and> f2 = \<lparr>it_node = Ptr 0\<rparr> \<and> e2 = \<lparr>it_node = Null\<rparr>"
      with 1(2) have "cmp h l1 l2 f1 e1 f2 e2 = Some y"
        by (simp add: iter_ne_def iter_eq_def deref_def get_value_def pre_increment_def
            get_next_node_def lookup_def)
      from 1(1) [OF this] a show False by simp
    qed
  qed
  show ?thesis
  proof (cases "std_lexicographical_compare [Some \<lparr>val = 1::int, next_node = Ptr 0\<rparr>] l1 l2
     \<lparr>it_node = Ptr 0\<rparr> \<lparr>it_node = Null\<rparr> \<lparr>it_node = Ptr 0\<rparr> \<lparr>it_node = Null\<rparr>")
    case None
    then show ?thesis .
  next
    case (Some y)
    from no [OF Some] show ?thesis by simp
  qed
qed

lemma std_equal_prefix:
  "chain h p ns \<Longrightarrow> chain h q ms \<Longrightarrow> map snd ms = map snd ns @ extra \<Longrightarrow>
     std_equal h l1 l2 \<lparr>it_node = p\<rparr> \<lparr>it_node = Null\<rparr> \<lparr>it_node = q\<rparr> = Some (Inr True)"
proof (induction ns arbitrary: p q ms)
  case Nil
  then show ?case by (simp add: std_equal.simps iter_ne_def iter_eq_def)
next
  case (Cons m ns)
  obtain a v where m: "m = (a, v)" by (cases m)
  from Cons.prems(1) m obtain n where n: "lookup h a = Some n" "p = Ptr a" "val n = v"
    "chain h (next_node n) ns"
    by (auto split: option.splits)
  from Cons.prems(3) m obtain b ms' where ms: "ms = (b, v) # ms'"
    "map snd ms' = map snd ns @ extra"
    by (cases ms) auto
  from Cons.prems(2) ms obtain n' where n': "lookup h b = Some n'" "q = Ptr b"
    "val n' = v" "chain h (next_node n') ms'"
    by (auto split: option.splits)
  have "std_equal h l1 l2 \<lparr>it_node = p\<rparr> \<lparr>it_node = Null\<rparr> \<lparr>it_node = q\<rparr> =
        std_equal h l1 l2 \<lparr>it_node = next_node n\<rparr> \<lparr>it_node = Null\<rparr>
          \<lparr>it_node = next_node n'\<rparr>"
    using n(1-3) n'(1-3)
    by (subst std_equal.simps)
      (simp add: iter_ne_def iter_eq_def deref_def get_value_def pre_increment_def
        get_next_node_def)
  with Cons.IH [OF n(4) n'(4) ms(2)] show ?case by simp
qed

lemma PushFront_elements:
  assumes "chain h (head_next_node l) ns"
  shows "elements (fst (PushFront h l v)) (snd (PushFront h l v)) = Some (Inr (v # map snd ns))"
  using elements_chain [OF PushFront_chain [OF assms, of v]] by simp

lemma PopFront_empty: "head_next_node l = Null \<Longrightarrow> PopFront h l = Inr (h, l)"
  by (simp add: PopFront_def)

lemma PopFront_size: "PopFront h l = Inr (h', l') \<Longrightarrow> list_size l' = list_size l"
  by (auto simp: PopFront_def Let_def split: if_splits sum.splits)

lemma PopFront_chain:
  assumes "chain h (head_next_node l) ((a, v) # ns)"
  shows "\<exists>l'. PopFront h l = Inr (h[a := None], l') \<and>
              chain (h[a := None]) (head_next_node l') ns"
proof -
  from assms obtain n where n: "lookup h a = Some n" "head_next_node l = Ptr a" "val n = v"
    "chain h (next_node n) ns"
    by (auto split: option.splits)
  from chain_acyclic [OF n(1) n(4)] n(4)
  have c: "chain (h[a := None]) (next_node n) ns" by (simp add: chain_update_other)
  show ?thesis
  proof (cases "next_node n = Null")
    case True
    with n c show ?thesis
      by (simp add: PopFront_def get_next_node_def delete_node_def)
  next
    case False
    with n c show ?thesis
      by (simp add: PopFront_def get_next_node_def delete_node_def)
  qed
qed

lemma EraseAfter_size:
  "EraseAfter h l pos = Inr (h', l', it) \<Longrightarrow> list_size l' = list_size l"
  by (auto simp: EraseAfter_def set_next_node_def
      split: sum.splits node_ptr.splits option.splits)

lemma IsEmpty_iff_GetSize: "IsEmpty l = (GetSize l = 0)"
  by (simp add: IsEmpty_def GetSize_def)

section \<open>The claims\<close>

text \<open>
  C1. \<^verbatim>\<open>PopFront\<close> removes the first element of a non-empty list and leaves an empty
  list alone (\<open>PopFront_chain\<close>, \<open>PopFront_empty\<close>), but it never touches the counter
  (\<open>PopFront_size\<close>), so the count does not go down by 1 when an element is removed.
  Here the list \<open>[7]\<close> is made by \<^verbatim>\<open>PushFront(7)\<close> on an empty list; after
  \<^verbatim>\<open>PopFront()\<close> it has no element left and \<^verbatim>\<open>GetSize()\<close> is still 1.
\<close>

theorem PopFront_count_not_decremented:
  "case PushFront [] default_members (7::int) of
     (h, l) \<Rightarrow>
       (case PopFront h l of
          Inl e \<Rightarrow> False
        | Inr (h', l') \<Rightarrow>
            elements h l = Some (Inr [7]) \<and> GetSize l = 1 \<and>
            elements h' l' = Some (Inr []) \<and> GetSize l' = 1)"
  by (simp add: eval_defs iterate.simps)

text \<open>
  C2. \<^verbatim>\<open>EraseAfter(pos)\<close> unlinks and deletes the node after \<open>pos\<close> and returns an
  iterator to the node that follows, but it leaves the counter as it was
  (\<open>EraseAfter_size\<close>).  On the list \<open>[1, 2, 3]\<close> with \<open>pos = begin()\<close> the result
  iterates as \<open>[1, 3]\<close>, the iterator returned refers to 3, and \<^verbatim>\<open>GetSize()\<close> is
  still 3.
\<close>

theorem EraseAfter_count_not_decremented:
  "case SingleLinkedList_init [] [1::int, 2, 3] of
     Some (Inr (h, l)) \<Rightarrow>
       (case EraseAfter h l (list_begin l) of
          Inl e \<Rightarrow> False
        | Inr (h', l', it) \<Rightarrow>
            elements h l = Some (Inr [1, 2, 3]) \<and> GetSize l = 3 \<and>
            elements h' l' = Some (Inr [1, 3]) \<and> deref h' it = Inr 3 \<and> GetSize l' = 3)
   | _ \<Rightarrow> False"
  by (simp add: eval_defs iterate.simps)

text \<open>
  C3. \<^verbatim>\<open>operator==\<close> passes only the beginning of the right-hand list to
  \<^verbatim>\<open>std::equal\<close>, so the comparison stops where the left-hand list ends: a list is
  found equal to every list it is a prefix of (\<open>std_equal_prefix\<close>).  With
  \<open>lhs = [1, 2]\<close> and \<open>rhs = [1, 2, 3]\<close>, \<^verbatim>\<open>lhs == rhs\<close> is true although the lengths
  differ, and \<^verbatim>\<open>rhs == lhs\<close> reads through \<^verbatim>\<open>nullptr\<close>.
\<close>

theorem operator_eq_ignores_longer_rhs:
  "case SingleLinkedList_init [] [1::int, 2] of
     Some (Inr (h1, lhs)) \<Rightarrow>
       (case SingleLinkedList_init h1 [1, 2, 3] of
          Some (Inr (h2, rhs)) \<Rightarrow>
            elements h2 lhs = Some (Inr [1, 2]) \<and> elements h2 rhs = Some (Inr [1, 2, 3]) \<and>
            operator_eq h2 lhs rhs = Some (Inr True) \<and>
            operator_eq h2 rhs lhs = Some (Inl NullDeref)
        | _ \<Rightarrow> False)
   | _ \<Rightarrow> False"
  by (simp add: eval_defs iterate.simps std_equal.simps)

text \<open>
  C4. The counter is not kept equal to the number of nodes reachable from the sentinel:
  \<^verbatim>\<open>PopFront\<close> and \<^verbatim>\<open>EraseAfter\<close> remove nodes without counting down.  The list
  \<open>[1, 2]\<close>, after \<^verbatim>\<open>PopFront()\<close> and \<^verbatim>\<open>EraseAfter(before_begin())\<close>, has no node
  left (\<^verbatim>\<open>begin() == end()\<close>), yet \<^verbatim>\<open>GetSize()\<close> is 2 and \<^verbatim>\<open>IsEmpty()\<close> is
  false.  That \<^verbatim>\<open>IsEmpty()\<close> agrees with \<^verbatim>\<open>GetSize() == 0\<close> is \<open>IsEmpty_iff_GetSize\<close>.
\<close>

theorem count_differs_from_reachable_nodes:
  "case SingleLinkedList_init [] [1::int, 2] of
     Some (Inr (h, l)) \<Rightarrow>
       (case PopFront h l of
          Inr (h1, l1) \<Rightarrow>
            (case EraseAfter h1 l1 (before_begin l1) of
               Inr (h2, l2, it) \<Rightarrow>
                 chain h2 (head_next_node l2) [] \<and> elements h2 l2 = Some (Inr []) \<and>
                 iter_eq (list_begin l2) (list_end l2) \<and>
                 GetSize l2 = 2 \<and> \<not> IsEmpty l2
             | Inl e \<Rightarrow> False)
        | Inl e \<Rightarrow> False)
   | _ \<Rightarrow> False"
  by (simp add: eval_defs iterate.simps)

text \<open>
  C5. For two well-formed lists in one heap, with element sequences \<open>map snd ns\<close> and
  \<open>map snd ms\<close> over a linearly ordered element type, \<^verbatim>\<open>operator<\<close> returns, and
  what it returns is the lexicographic order of the two sequences: the left one is a
  proper prefix of the right one, or at the first position where they differ its element
  is the smaller one (that is \<^const>\<open>lexord\<close>).
\<close>

theorem operator_lt_lexicographic:
  assumes "chain h (head_next_node lhs) ns" and "chain h (head_next_node rhs) ms"
  shows "operator_lt h lhs rhs =
           Some (Inr ((map snd ns, map snd ms) \<in> lexord {(x, y). x < y}))"
  using assms by (simp add: operator_lt_def list_begin_def list_end_def
      lexicographical_compare_chain)

text \<open>
  One heap holding \<open>[1, 2]\<close> (from cell 1), \<open>[1, 2, 3]\<close> (from cell 4), \<open>[1, 3]\<close>
  (from cell 6) and the empty list: \<open>[1, 2] < [1, 2, 3]\<close>, \<open>[1, 2, 3] < [1, 3]\<close>,
  \<open>[] < [1, 2]\<close>, and not \<open>[1, 3] < [1, 2, 3]\<close>.
\<close>

theorem operator_lt_lexicographic_witness:
  "chain [Some \<lparr>val = 2::int, next_node = Null\<rparr>, Some \<lparr>val = 1, next_node = Ptr 0\<rparr>,
          Some \<lparr>val = 3, next_node = Null\<rparr>, Some \<lparr>val = 2, next_node = Ptr 2\<rparr>,
          Some \<lparr>val = 1, next_node = Ptr 3\<rparr>,
          Some \<lparr>val = 3, next_node = Null\<rparr>, Some \<lparr>val = 1, next_node = Ptr 5\<rparr>]
     (Ptr 1) [(1, 1), (0, 2)] \<and>
   chain [Some \<lparr>val = 2::int, next_node = Null\<rparr>, Some \<lparr>val = 1, next_node = Ptr 0\<rparr>,
          Some \<lparr>val = 3, next_node = Null\<rparr>, Some \<lparr>val = 2, next_node = Ptr 2\<rparr>,
          Some \<lparr>val = 1, next_node = Ptr 3\<rparr>,
          Some \<lparr>val = 3, next_node = Null\<rparr>, Some \<lparr>val = 1, next_node = Ptr 5\<rparr>]
     (Ptr 4) [(4, 1), (3, 2), (2, 3)] \<and>
   chain [Some \<lparr>val = 2::int, next_node = Null\<rparr>, Some \<lparr>val = 1, next_node = Ptr 0\<rparr>,
          Some \<lparr>val = 3, next_node = Null\<rparr>, Some \<lparr>val = 2, next_node = Ptr 2\<rparr>,
          Some \<lparr>val = 1, next_node = Ptr 3\<rparr>,
          Some \<lparr>val = 3, next_node = Null\<rparr>, Some \<lparr>val = 1, next_node = Ptr 5\<rparr>]
     (Ptr 6) [(6, 1), (5, 3)] \<and>
   operator_lt [Some \<lparr>val = 2::int, next_node = Null\<rparr>, Some \<lparr>val = 1, next_node = Ptr 0\<rparr>,
          Some \<lparr>val = 3, next_node = Null\<rparr>, Some \<lparr>val = 2, next_node = Ptr 2\<rparr>,
          Some \<lparr>val = 1, next_node = Ptr 3\<rparr>,
          Some \<lparr>val = 3, next_node = Null\<rparr>, Some \<lparr>val = 1, next_node = Ptr 5\<rparr>]
     \<lparr>head_next_node = Ptr 1, list_size = 2\<rparr> \<lparr>head_next_node = Ptr 4, list_size = 3\<rparr> =
     Some (Inr True) \<and>
   operator_lt [Some \<lparr>val = 2::int, next_node = Null\<rparr>, Some \<lparr>val = 1, next_node = Ptr 0\<rparr>,
          Some \<lparr>val = 3, next_node = Null\<rparr>, Some \<lparr>val = 2, next_node = Ptr 2\<rparr>,
          Some \<lparr>val = 1, next_node = Ptr 3\<rparr>,
          Some \<lparr>val = 3, next_node = Null\<rparr>, Some \<lparr>val = 1, next_node = Ptr 5\<rparr>]
     \<lparr>head_next_node = Ptr 4, list_size = 3\<rparr> \<lparr>head_next_node = Ptr 6, list_size = 2\<rparr> =
     Some (Inr True) \<and>
   operator_lt [Some \<lparr>val = 2::int, next_node = Null\<rparr>, Some \<lparr>val = 1, next_node = Ptr 0\<rparr>,
          Some \<lparr>val = 3, next_node = Null\<rparr>, Some \<lparr>val = 2, next_node = Ptr 2\<rparr>,
          Some \<lparr>val = 1, next_node = Ptr 3\<rparr>,
          Some \<lparr>val = 3, next_node = Null\<rparr>, Some \<lparr>val = 1, next_node = Ptr 5\<rparr>]
     \<lparr>head_next_node = Null, list_size = 0\<rparr> \<lparr>head_next_node = Ptr 1, list_size = 2\<rparr> =
     Some (Inr True) \<and>
   operator_lt [Some \<lparr>val = 2::int, next_node = Null\<rparr>, Some \<lparr>val = 1, next_node = Ptr 0\<rparr>,
          Some \<lparr>val = 3, next_node = Null\<rparr>, Some \<lparr>val = 2, next_node = Ptr 2\<rparr>,
          Some \<lparr>val = 1, next_node = Ptr 3\<rparr>,
          Some \<lparr>val = 3, next_node = Null\<rparr>, Some \<lparr>val = 1, next_node = Ptr 5\<rparr>]
     \<lparr>head_next_node = Ptr 6, list_size = 2\<rparr> \<lparr>head_next_node = Ptr 4, list_size = 3\<rparr> =
     Some (Inr False)"
proof -
  let ?h = "[Some \<lparr>val = 2::int, next_node = Null\<rparr>, Some \<lparr>val = 1, next_node = Ptr 0\<rparr>,
          Some \<lparr>val = 3, next_node = Null\<rparr>, Some \<lparr>val = 2, next_node = Ptr 2\<rparr>,
          Some \<lparr>val = 1, next_node = Ptr 3\<rparr>,
          Some \<lparr>val = 3, next_node = Null\<rparr>, Some \<lparr>val = 1, next_node = Ptr 5\<rparr>]"
  let ?A = "\<lparr>head_next_node = Ptr 1, list_size = 2\<rparr>"
  let ?B = "\<lparr>head_next_node = Ptr 4, list_size = 3\<rparr>"
  let ?C = "\<lparr>head_next_node = Ptr 6, list_size = 2\<rparr>"
  let ?E = "\<lparr>head_next_node = Null, list_size = 0\<rparr>"
  have a: "chain ?h (head_next_node ?A) [(1, 1), (0, 2)]" by (simp add: lookup_def)
  have b: "chain ?h (head_next_node ?B) [(4, 1), (3, 2), (2, 3)]" by (simp add: lookup_def)
  have c: "chain ?h (head_next_node ?C) [(6, 1), (5, 3)]" by (simp add: lookup_def)
  have e: "chain ?h (head_next_node ?E) []" by simp
  have "operator_lt ?h ?A ?B = Some (Inr True)"
    using operator_lt_lexicographic [OF a b] by simp
  moreover have "operator_lt ?h ?B ?C = Some (Inr True)"
    using operator_lt_lexicographic [OF b c] by simp
  moreover have "operator_lt ?h ?E ?A = Some (Inr True)"
    using operator_lt_lexicographic [OF e a] by simp
  moreover have "operator_lt ?h ?C ?B = Some (Inr False)"
    using operator_lt_lexicographic [OF c b] by simp
  ultimately show ?thesis using a b c by simp
qed

text \<open>
  C6. \<^verbatim>\<open>operator<=\<close>, \<^verbatim>\<open>operator>\<close> and \<^verbatim>\<open>operator>=\<close> each return the Boolean
  negation of what \<^verbatim>\<open>lhs < rhs\<close> returns, with the operands in the same order: if
  \<^verbatim>\<open>lhs < rhs\<close> is \<open>b\<close>, all three are \<open>\<not> b\<close>; if it fails or does not return,
  so do they.  On well-formed lists over a linearly ordered element type all three are
  therefore "not lexicographically less".  So \<^verbatim>\<open>>\<close> is not \<^verbatim>\<open>rhs < lhs\<close>: for the
  list \<open>a = [1]\<close>, \<^verbatim>\<open>a > a\<close> is true while \<^verbatim>\<open>a < a\<close> is false.
\<close>

theorem derived_orderings_negate_lt:
  "(operator_lt h lhs rhs = Some (Inr b) \<longrightarrow>
      operator_le h lhs rhs = Some (Inr (\<not> b)) \<and>
      operator_gt h lhs rhs = Some (Inr (\<not> b)) \<and>
      operator_ge h lhs rhs = Some (Inr (\<not> b))) \<and>
   (operator_lt h lhs rhs = Some (Inl e) \<longrightarrow>
      operator_le h lhs rhs = Some (Inl e) \<and>
      operator_gt h lhs rhs = Some (Inl e) \<and>
      operator_ge h lhs rhs = Some (Inl e)) \<and>
   (operator_lt h lhs rhs = None \<longrightarrow>
      operator_le h lhs rhs = None \<and>
      operator_gt h lhs rhs = None \<and>
      operator_ge h lhs rhs = None) \<and>
   (chain h (head_next_node lhs) ns \<and> chain h (head_next_node rhs) ms \<longrightarrow>
      operator_le h lhs rhs = Some (Inr ((map snd ns, map snd ms) \<notin> lexord {(x, y). x < y})) \<and>
      operator_gt h lhs rhs = Some (Inr ((map snd ns, map snd ms) \<notin> lexord {(x, y). x < y})) \<and>
      operator_ge h lhs rhs = Some (Inr ((map snd ns, map snd ms) \<notin> lexord {(x, y). x < y}))) \<and>
   operator_gt [Some \<lparr>val = 1::int, next_node = Null\<rparr>]
     \<lparr>head_next_node = Ptr 0, list_size = 1\<rparr> \<lparr>head_next_node = Ptr 0, list_size = 1\<rparr> =
     Some (Inr True) \<and>
   operator_lt [Some \<lparr>val = 1::int, next_node = Null\<rparr>]
     \<lparr>head_next_node = Ptr 0, list_size = 1\<rparr> \<lparr>head_next_node = Ptr 0, list_size = 1\<rparr> =
     Some (Inr False)"
proof -
  have pinned: "\<And>r. operator_lt h lhs rhs = r \<Longrightarrow>
      operator_le h lhs rhs = not_result r \<and> operator_gt h lhs rhs = not_result r \<and>
      operator_ge h lhs rhs = not_result r"
    by (simp add: operator_le_def operator_gt_def operator_ge_def)
  have wf: "chain h (head_next_node lhs) ns \<and> chain h (head_next_node rhs) ms \<longrightarrow>
      operator_lt h lhs rhs = Some (Inr ((map snd ns, map snd ms) \<in> lexord {(x, y). x < y}))"
    by (simp add: operator_lt_def list_begin_def list_end_def lexicographical_compare_chain)
  have ex: "operator_lt [Some \<lparr>val = 1::int, next_node = Null\<rparr>]
     \<lparr>head_next_node = Ptr 0, list_size = 1\<rparr> \<lparr>head_next_node = Ptr 0, list_size = 1\<rparr> =
     Some (Inr False)"
    by (simp add: eval_defs std_lexicographical_compare.simps)
  have ex': "operator_gt [Some \<lparr>val = 1::int, next_node = Null\<rparr>]
     \<lparr>head_next_node = Ptr 0, list_size = 1\<rparr> \<lparr>head_next_node = Ptr 0, list_size = 1\<rparr> =
     Some (Inr True)"
    by (simp add: operator_gt_def ex not_result_def)
  from pinned wf ex ex' show ?thesis by (auto simp: not_result_def)
qed

text \<open>
  \<open>[1, 2]\<close> against \<open>[1, 2, 3]\<close> (less, so all three are false), \<open>[1, 2, 3]\<close> against
  the empty list (not less, so \<^verbatim>\<open><=\<close> is true), a list whose second node has been
  deleted (the error is passed on) and a node linked to itself (no result).
\<close>

theorem derived_orderings_negate_lt_witness:
  "chain [Some \<lparr>val = 2::int, next_node = Null\<rparr>, Some \<lparr>val = 1, next_node = Ptr 0\<rparr>,
          Some \<lparr>val = 3, next_node = Null\<rparr>, Some \<lparr>val = 2, next_node = Ptr 2\<rparr>,
          Some \<lparr>val = 1, next_node = Ptr 3\<rparr>] (Ptr 1) [(1, 1), (0, 2)] \<and>
   chain [Some \<lparr>val = 2::int, next_node = Null\<rparr>, Some \<lparr>val = 1, next_node = Ptr 0\<rparr>,
          Some \<lparr>val = 3, next_node = Null\<rparr>, Some \<lparr>val = 2, next_node = Ptr 2\<rparr>,
          Some \<lparr>val = 1, next_node = Ptr 3\<rparr>] (Ptr 4) [(4, 1), (3, 2), (2, 3)] \<and>
   operator_lt [Some \<lparr>val = 2::int, next_node = Null\<rparr>, Some \<lparr>val = 1, next_node = Ptr 0\<rparr>,
          Some \<lparr>val = 3, next_node = Null\<rparr>, Some \<lparr>val = 2, next_node = Ptr 2\<rparr>,
          Some \<lparr>val = 1, next_node = Ptr 3\<rparr>]
     \<lparr>head_next_node = Ptr 1, list_size = 2\<rparr> \<lparr>head_next_node = Ptr 4, list_size = 3\<rparr> =
     Some (Inr True) \<and>
   operator_le [Some \<lparr>val = 2::int, next_node = Null\<rparr>, Some \<lparr>val = 1, next_node = Ptr 0\<rparr>,
          Some \<lparr>val = 3, next_node = Null\<rparr>, Some \<lparr>val = 2, next_node = Ptr 2\<rparr>,
          Some \<lparr>val = 1, next_node = Ptr 3\<rparr>]
     \<lparr>head_next_node = Ptr 1, list_size = 2\<rparr> \<lparr>head_next_node = Ptr 4, list_size = 3\<rparr> =
     Some (Inr False) \<and>
   operator_gt [Some \<lparr>val = 2::int, next_node = Null\<rparr>, Some \<lparr>val = 1, next_node = Ptr 0\<rparr>,
          Some \<lparr>val = 3, next_node = Null\<rparr>, Some \<lparr>val = 2, next_node = Ptr 2\<rparr>,
          Some \<lparr>val = 1, next_node = Ptr 3\<rparr>]
     \<lparr>head_next_node = Ptr 1, list_size = 2\<rparr> \<lparr>head_next_node = Ptr 4, list_size = 3\<rparr> =
     Some (Inr False) \<and>
   operator_ge [Some \<lparr>val = 2::int, next_node = Null\<rparr>, Some \<lparr>val = 1, next_node = Ptr 0\<rparr>,
          Some \<lparr>val = 3, next_node = Null\<rparr>, Some \<lparr>val = 2, next_node = Ptr 2\<rparr>,
          Some \<lparr>val = 1, next_node = Ptr 3\<rparr>]
     \<lparr>head_next_node = Ptr 1, list_size = 2\<rparr> \<lparr>head_next_node = Ptr 4, list_size = 3\<rparr> =
     Some (Inr False) \<and>
   operator_lt [Some \<lparr>val = 2::int, next_node = Null\<rparr>, Some \<lparr>val = 1, next_node = Ptr 0\<rparr>,
          Some \<lparr>val = 3, next_node = Null\<rparr>, Some \<lparr>val = 2, next_node = Ptr 2\<rparr>,
          Some \<lparr>val = 1, next_node = Ptr 3\<rparr>]
     \<lparr>head_next_node = Ptr 4, list_size = 3\<rparr> \<lparr>head_next_node = Null, list_size = 0\<rparr> =
     Some (Inr False) \<and>
   operator_le [Some \<lparr>val = 2::int, next_node = Null\<rparr>, Some \<lparr>val = 1, next_node = Ptr 0\<rparr>,
          Some \<lparr>val = 3, next_node = Null\<rparr>, Some \<lparr>val = 2, next_node = Ptr 2\<rparr>,
          Some \<lparr>val = 1, next_node = Ptr 3\<rparr>]
     \<lparr>head_next_node = Ptr 4, list_size = 3\<rparr> \<lparr>head_next_node = Null, list_size = 0\<rparr> =
     Some (Inr True) \<and>
   operator_lt [Some \<lparr>val = 2::int, next_node = Null\<rparr>, None,
          Some \<lparr>val = 1, next_node = Ptr 1\<rparr>]
     \<lparr>head_next_node = Ptr 2, list_size = 2\<rparr> \<lparr>head_next_node = Ptr 2, list_size = 2\<rparr> =
     Some (Inl DanglingDeref) \<and>
   operator_ge [Some \<lparr>val = 2::int, next_node = Null\<rparr>, None,
          Some \<lparr>val = 1, next_node = Ptr 1\<rparr>]
     \<lparr>head_next_node = Ptr 2, list_size = 2\<rparr> \<lparr>head_next_node = Ptr 2, list_size = 2\<rparr> =
     Some (Inl DanglingDeref) \<and>
   operator_lt [Some \<lparr>val = 1::int, next_node = Ptr 0\<rparr>]
     \<lparr>head_next_node = Ptr 0, list_size = 1\<rparr> \<lparr>head_next_node = Ptr 0, list_size = 1\<rparr> =
     None \<and>
   operator_gt [Some \<lparr>val = 1::int, next_node = Ptr 0\<rparr>]
     \<lparr>head_next_node = Ptr 0, list_size = 1\<rparr> \<lparr>head_next_node = Ptr 0, list_size = 1\<rparr> =
     None"
proof -
  let ?h = "[Some \<lparr>val = 2::int, next_node = Null\<rparr>, Some \<lparr>val = 1, next_node = Ptr 0\<rparr>,
          Some \<lparr>val = 3, next_node = Null\<rparr>, Some \<lparr>val = 2, next_node = Ptr 2\<rparr>,
          Some \<lparr>val = 1, next_node = Ptr 3\<rparr>]"
  let ?g = "[Some \<lparr>val = 2::int, next_node = Null\<rparr>, None,
          Some \<lparr>val = 1, next_node = Ptr 1\<rparr>]"
  let ?c = "[Some \<lparr>val = 1::int, next_node = Ptr 0\<rparr>]"
  let ?A = "\<lparr>head_next_node = Ptr 1, list_size = 2\<rparr>"
  let ?B = "\<lparr>head_next_node = Ptr 4, list_size = 3\<rparr>"
  let ?E = "\<lparr>head_next_node = Null, list_size = 0\<rparr>"
  let ?D = "\<lparr>head_next_node = Ptr 2, list_size = 2\<rparr>"
  let ?S = "\<lparr>head_next_node = Ptr 0, list_size = 1\<rparr>"
  have a: "chain ?h (head_next_node ?A) [(1, 1), (0, 2)]" by (simp add: lookup_def)
  have b: "chain ?h (head_next_node ?B) [(4, 1), (3, 2), (2, 3)]" by (simp add: lookup_def)
  have ab: "operator_lt ?h ?A ?B = Some (Inr True)"
    by (simp add: eval_defs std_lexicographical_compare.simps)
  have be: "operator_lt ?h ?B ?E = Some (Inr False)"
    by (simp add: eval_defs std_lexicographical_compare.simps)
  have dd: "operator_lt ?g ?D ?D = Some (Inl DanglingDeref)"
    by (simp add: eval_defs std_lexicographical_compare.simps)
  have ss: "operator_lt ?c ?S ?S = None"
    by (simp add: operator_lt_def list_begin_def list_end_def
        lexicographical_compare_self_loop)
  have "operator_le ?h ?A ?B = Some (Inr False) \<and> operator_ge ?h ?A ?B = Some (Inr False)"
    using derived_orderings_negate_lt [of ?h ?A ?B True] ab by simp
  moreover have "operator_gt ?h ?A ?B = Some (Inr False)"
    using derived_orderings_negate_lt
      [of ?h ?A ?B _ _ "[(1, 1), (0, 2)]" "[(4, 1), (3, 2), (2, 3)]"] a b
    by simp
  moreover have "operator_le ?h ?B ?E = Some (Inr True)"
    using derived_orderings_negate_lt [of ?h ?B ?E False] be by simp
  moreover have "operator_ge ?g ?D ?D = Some (Inl DanglingDeref)"
    using derived_orderings_negate_lt [of ?g ?D ?D _ DanglingDeref] dd by simp
  moreover have "operator_gt ?c ?S ?S = None"
    using derived_orderings_negate_lt [of ?c ?S ?S] ss by simp
  ultimately show ?thesis using a b ab be dd ss by simp
qed

text \<open>
  C7. \<^verbatim>\<open>InsertAfter(before_begin(), x)\<close> succeeds on every list and leaves the heap and
  the list object exactly as \<^verbatim>\<open>PushFront(x)\<close> does, hence with the same element
  sequence and the same count; the iterator it returns is \<^verbatim>\<open>begin()\<close> of the result
  and refers to \<open>x\<close>.
\<close>

theorem InsertAfter_before_begin_is_PushFront:
  "case PushFront h l x of
     (h1, l1) \<Rightarrow>
       (case InsertAfter h l (before_begin l) x of
          Inl e \<Rightarrow> False
        | Inr (h2, l2, it) \<Rightarrow>
            h2 = h1 \<and> l2 = l1 \<and> elements h2 l2 = elements h1 l1 \<and>
            GetSize l2 = GetSize l1 \<and> iter_eq it (list_begin l2) \<and> deref h2 it = Inr x)"
  by (simp add: InsertAfter_def PushFront_def before_begin_def list_begin_def
      get_next_node_def set_next_node_def new_def deref_def get_value_def lookup_def
      iter_eq_def)

text \<open>
  C8. On every heap and for every sequence \<open>vs\<close> of values, the constructor from an
  initialiser list returns a list that iterates as \<open>vs\<close>, in that order, and counts
  \<open>length vs\<close> elements; it does so by \<^verbatim>\<open>PushFront\<close> of each value of \<open>vs\<close> taken
  in reverse.
\<close>

theorem init_list_keeps_order:
  "SingleLinkedList_init h vs =
     Some (Inr (fold (\<lambda>v (h', l'). PushFront h' l' v) (rev vs) (h, default_members))) \<and>
   (\<exists>h' l'. SingleLinkedList_init h vs = Some (Inr (h', l')) \<and>
            elements h' l' = Some (Inr vs) \<and> GetSize l' = of_nat (length vs))"
proof -
  let ?r = "fold (\<lambda>v (h', l'). PushFront h' l' v) (rev vs) (h, default_members)"
  have i: "SingleLinkedList_init h vs = Some (Inr ?r)"
    by (simp add: SingleLinkedList_init_def Clear_default)
  have "chain h (head_next_node default_members) []"
    by (simp add: default_members_def)
  from fold_PushFront_chain [OF this, of "rev vs"]
  obtain ms where ms: "chain (fst ?r) (head_next_node (snd ?r)) ms" "map snd ms = vs"
    by auto
  from elements_chain [OF ms(1)] ms(2) have e: "elements (fst ?r) (snd ?r) = Some (Inr vs)"
    by simp
  have s: "GetSize (snd ?r) = of_nat (length vs)"
    by (simp add: GetSize_def fold_PushFront_size default_members_def)
  from i e s have "SingleLinkedList_init h vs = Some (Inr (fst ?r, snd ?r)) \<and>
      elements (fst ?r) (snd ?r) = Some (Inr vs) \<and> GetSize (snd ?r) = of_nat (length vs)"
    by simp
  then have "\<exists>h' l'. SingleLinkedList_init h vs = Some (Inr (h', l')) \<and>
            elements h' l' = Some (Inr vs) \<and> GetSize l' = of_nat (length vs)"
    by blast
  with i show ?thesis by blast
qed

text \<open>
  C9. On every well-formed list, whatever its counter holds and also when it is empty,
  \<^verbatim>\<open>Clear()\<close> returns, having deleted exactly the nodes of the chain, and leaves
  \<^verbatim>\<open>head_.next_node == nullptr\<close> and \<^verbatim>\<open>size_ == 0\<close>: \<^verbatim>\<open>GetSize()\<close> is 0 and
  \<^verbatim>\<open>begin() == end()\<close>.
\<close>

theorem Clear_empties_list:
  assumes "chain h (head_next_node l) ns"
  shows "\<exists>h' l'. Clear h l = Some (Inr (h', l')) \<and> h' = release (map fst ns) h \<and>
           head_next_node l' = Null \<and> list_size l' = 0 \<and> GetSize l' = 0 \<and>
           iter_eq (list_begin l') (list_end l')"
proof (cases "head_next_node l = Null")
  case True
  with assms have "ns = []" by (simp add: chain_Null)
  with True show ?thesis
    by (simp add: Clear_def release_def GetSize_def iter_eq_def list_begin_def list_end_def)
next
  case False
  with Clear_loop_chain [OF assms, of l] show ?thesis
    by (simp add: Clear_def GetSize_def iter_eq_def list_begin_def list_end_def)
qed

text \<open>The list \<open>[1, 2, 3]\<close> with a stale counter of 5, and the empty list.\<close>

theorem Clear_empties_list_witness:
  "chain [Some \<lparr>val = 3::int, next_node = Null\<rparr>, Some \<lparr>val = 2, next_node = Ptr 0\<rparr>,
          Some \<lparr>val = 1, next_node = Ptr 1\<rparr>] (Ptr 2) [(2, 1), (1, 2), (0, 3)] \<and>
   Clear [Some \<lparr>val = 3::int, next_node = Null\<rparr>, Some \<lparr>val = 2, next_node = Ptr 0\<rparr>,
          Some \<lparr>val = 1, next_node = Ptr 1\<rparr>] \<lparr>head_next_node = Ptr 2, list_size = 5\<rparr> =
     Some (Inr ([None, None, None], \<lparr>head_next_node = Null, list_size = 0\<rparr>)) \<and>
   chain ([] :: int heap) Null [] \<and>
   Clear ([] :: int heap) \<lparr>head_next_node = Null, list_size = 0\<rparr> =
     Some (Inr ([], \<lparr>head_next_node = Null, list_size = 0\<rparr>))"
proof -
  let ?h = "[Some \<lparr>val = 3::int, next_node = Null\<rparr>, Some \<lparr>val = 2, next_node = Ptr 0\<rparr>,
          Some \<lparr>val = 1, next_node = Ptr 1\<rparr>]"
  let ?l = "\<lparr>head_next_node = Ptr 2, list_size = 5\<rparr>"
  let ?e = "\<lparr>head_next_node = Null, list_size = 0\<rparr>"
  have a: "chain ?h (head_next_node ?l) [(2, 1), (1, 2), (0, 3)]" by (simp add: lookup_def)
  have b: "chain ([] :: int heap) (head_next_node ?e) []" by simp
  have "Clear ?h ?l = Some (Inr ([None, None, None], ?e))"
    using Clear_empties_list [OF a] by (auto simp: release_def)
  moreover have "Clear ([] :: int heap) ?e = Some (Inr ([], ?e))"
    using Clear_empties_list [OF b] by (auto simp: release_def)
  ultimately show ?thesis using a b by simp
qed

text \<open>
  C10, as the code has it.  \<^verbatim>\<open>operator++\<close>, prefix and postfix, on an iterator
  equal to \<^verbatim>\<open>end()\<close> does nothing: the iterator is \<^verbatim>\<open>end()\<close> afterwards, and the
  postfix form returns \<^verbatim>\<open>end()\<close>.  On every iterator of a well-formed list
  (\<^verbatim>\<open>end()\<close>, \<^verbatim>\<open>before_begin()\<close>, an iterator to one of its nodes) advancing
  returns, and what it yields is \<^verbatim>\<open>end()\<close> or an iterator to a node of that list.
  Advancing is defined exactly on \<^verbatim>\<open>end()\<close>, \<^verbatim>\<open>before_begin()\<close> and the iterators
  to nodes that have not been deleted, and on no other iterator value.
\<close>

theorem increment_defined_on_list_iterators:
  "pre_increment h l (list_end l) = Inr (list_end l) \<and>
   post_increment h l (list_end l) = Inr (list_end l, list_end l) \<and>
   (chain h (head_next_node l) ns \<and> list_iterator ns it \<longrightarrow>
      (\<exists>it'. pre_increment h l it = Inr it' \<and> post_increment h l it = Inr (it, it') \<and>
             list_iterator ns it' \<and> it_node it' \<noteq> Head)) \<and>
   ((\<exists>it'. pre_increment h l it = Inr it') = valid_iterator h it) \<and>
   ((\<exists>r. post_increment h l it = Inr r) = valid_iterator h it)"
proof -
  have e: "pre_increment h l (list_end l) = Inr (list_end l) \<and>
           post_increment h l (list_end l) = Inr (list_end l, list_end l)"
    by (simp add: pre_increment_def post_increment_def list_end_def)
  have v: "((\<exists>it'. pre_increment h l it = Inr it') = valid_iterator h it) \<and>
           ((\<exists>r. post_increment h l it = Inr r) = valid_iterator h it)"
    by (auto simp: pre_increment_def post_increment_def valid_iterator_def get_next_node_def
        split: node_ptr.splits option.splits)
  have c: "\<exists>it'. pre_increment h l it = Inr it' \<and> post_increment h l it = Inr (it, it') \<and>
             list_iterator ns it' \<and> it_node it' \<noteq> Head"
    if ch: "chain h (head_next_node l) ns" and li: "list_iterator ns it"
  proof (cases "it_node it")
    case Null
    with li show ?thesis
      by (simp add: pre_increment_def post_increment_def list_iterator_def)
  next
    case Head
    from chain_head_in_chain [OF ch] Head show ?thesis
      by (force simp: pre_increment_def post_increment_def list_iterator_def get_next_node_def)
  next
    case (Ptr a)
    with li have "a \<in> fst ` set ns" by (simp add: list_iterator_def)
    from chain_next_in_chain [OF ch this] Ptr show ?thesis
      by (force simp: pre_increment_def post_increment_def list_iterator_def get_next_node_def)
  qed
  from e v c show ?thesis by blast
qed

theorem increment_defined_on_list_iterators_witness:
  "chain [Some \<lparr>val = 3::int, next_node = Null\<rparr>, Some \<lparr>val = 2, next_node = Ptr 0\<rparr>,
          Some \<lparr>val = 1, next_node = Ptr 1\<rparr>] (Ptr 2) [(2, 1), (1, 2), (0, 3)] \<and>
   list_iterator [(2, 1::int), (1, 2), (0, 3)] \<lparr>it_node = Ptr 1\<rparr> \<and>
   pre_increment [Some \<lparr>val = 3::int, next_node = Null\<rparr>, Some \<lparr>val = 2, next_node = Ptr 0\<rparr>,
          Some \<lparr>val = 1, next_node = Ptr 1\<rparr>] \<lparr>head_next_node = Ptr 2, list_size = 3\<rparr>
     \<lparr>it_node = Ptr 1\<rparr> = Inr \<lparr>it_node = Ptr 0\<rparr> \<and>
   post_increment [Some \<lparr>val = 3::int, next_node = Null\<rparr>, Some \<lparr>val = 2, next_node = Ptr 0\<rparr>,
          Some \<lparr>val = 1, next_node = Ptr 1\<rparr>] \<lparr>head_next_node = Ptr 2, list_size = 3\<rparr>
     \<lparr>it_node = Ptr 1\<rparr> = Inr (\<lparr>it_node = Ptr 1\<rparr>, \<lparr>it_node = Ptr 0\<rparr>) \<and>
   list_iterator [(2, 1::int), (1, 2), (0, 3)] \<lparr>it_node = Ptr 0\<rparr> \<and>
   pre_increment [Some \<lparr>val = 3::int, next_node = Null\<rparr>, Some \<lparr>val = 2, next_node = Ptr 0\<rparr>,
          Some \<lparr>val = 1, next_node = Ptr 1\<rparr>] \<lparr>head_next_node = Ptr 2, list_size = 3\<rparr>
     \<lparr>it_node = Null\<rparr> = Inr \<lparr>it_node = Null\<rparr>"
proof -
  let ?h = "[Some \<lparr>val = 3::int, next_node = Null\<rparr>, Some \<lparr>val = 2, next_node = Ptr 0\<rparr>,
          Some \<lparr>val = 1, next_node = Ptr 1\<rparr>]"
  let ?l = "\<lparr>head_next_node = Ptr 2, list_size = 3\<rparr>"
  let ?ns = "[(2, 1::int), (1, 2), (0, 3)]"
  have a: "chain ?h (head_next_node ?l) ?ns" by (simp add: lookup_def)
  have b: "list_iterator ?ns \<lparr>it_node = Ptr 1\<rparr>" by (simp add: list_iterator_def)
  from increment_defined_on_list_iterators [of ?h ?l ?ns "\<lparr>it_node = Ptr 1\<rparr>"] a b
  obtain it' where i: "pre_increment ?h ?l \<lparr>it_node = Ptr 1\<rparr> = Inr it'"
    "post_increment ?h ?l \<lparr>it_node = Ptr 1\<rparr> = Inr (\<lparr>it_node = Ptr 1\<rparr>, it')"
    "list_iterator ?ns it'"
    by blast
  have p: "pre_increment ?h ?l \<lparr>it_node = Ptr 1\<rparr> = Inr \<lparr>it_node = Ptr 0\<rparr>"
    by (simp add: pre_increment_def get_next_node_def lookup_def)
  with i have "it' = \<lparr>it_node = Ptr 0\<rparr>" by simp
  with i p a b show ?thesis
    using increment_defined_on_list_iterators [of ?h ?l ?ns "\<lparr>it_node = Ptr 1\<rparr>"]
    by (simp add: list_end_def)
qed

text \<open>
  Advancing is not defined on every iterator value.  In the list \<open>[1, 2, 3]\<close> the
  iterator \<^verbatim>\<open>++begin()\<close> refers to 2; after \<^verbatim>\<open>EraseAfter(begin())\<close> has deleted that
  node, both forms of \<^verbatim>\<open>operator++\<close> on it read the deleted node.
\<close>

theorem increment_of_erased_iterator_counterexample:
  "SingleLinkedList_init [] [1::int, 2, 3] =
     Some (Inr ([Some \<lparr>val = 3, next_node = Null\<rparr>, Some \<lparr>val = 2, next_node = Ptr 0\<rparr>,
                 Some \<lparr>val = 1, next_node = Ptr 1\<rparr>],
                \<lparr>head_next_node = Ptr 2, list_size = 3\<rparr>)) \<and>
   pre_increment [Some \<lparr>val = 3::int, next_node = Null\<rparr>, Some \<lparr>val = 2, next_node = Ptr 0\<rparr>,
                  Some \<lparr>val = 1, next_node = Ptr 1\<rparr>]
     \<lparr>head_next_node = Ptr 2, list_size = 3\<rparr>
     (list_begin \<lparr>head_next_node = Ptr 2, list_size = 3\<rparr>) = Inr \<lparr>it_node = Ptr 1\<rparr> \<and>
   deref [Some \<lparr>val = 3::int, next_node = Null\<rparr>, Some \<lparr>val = 2, next_node = Ptr 0\<rparr>,
          Some \<lparr>val = 1, next_node = Ptr 1\<rparr>] \<lparr>it_node = Ptr 1\<rparr> = Inr 2 \<and>
   EraseAfter [Some \<lparr>val = 3::int, next_node = Null\<rparr>, Some \<lparr>val = 2, next_node = Ptr 0\<rparr>,
               Some \<lparr>val = 1, next_node = Ptr 1\<rparr>]
     \<lparr>head_next_node = Ptr 2, list_size = 3\<rparr>
     (list_begin \<lparr>head_next_node = Ptr 2, list_size = 3\<rparr>) =
     Inr ([Some \<lparr>val = 3, next_node = Null\<rparr>, None, Some \<lparr>val = 1, next_node = Ptr 0\<rparr>],
          \<lparr>head_next_node = Ptr 2, list_size = 3\<rparr>, \<lparr>it_node = Ptr 0\<rparr>) \<and>
   pre_increment [Some \<lparr>val = 3::int, next_node = Null\<rparr>, None,
                  Some \<lparr>val = 1, next_node = Ptr 0\<rparr>]
     \<lparr>head_next_node = Ptr 2, list_size = 3\<rparr> \<lparr>it_node = Ptr 1\<rparr> = Inl DanglingDeref \<and>
   post_increment [Some \<lparr>val = 3::int, next_node = Null\<rparr>, None,
                   Some \<lparr>val = 1, next_node = Ptr 0\<rparr>]
     \<lparr>head_next_node = Ptr 2, list_size = 3\<rparr> \<lparr>it_node = Ptr 1\<rparr> = Inl DanglingDeref"
  by (simp add: eval_defs)

end
